theory Spec2Isabelle
  imports Complex_Main "HOL-Library.Sublist"
begin

section \<open>The catalog frame\<close>

text \<open>
  The dashboard script \<^verbatim>\<open>app.py\<close> is a linear pipeline over a pandas frame: load and
  clean, cleaning summary, filter, aggregates, insights. A frame is modelled as the list of
  its rows, a cell as an \<open>option\<close> (\<open>None\<close> is pandas' NaN/NaT), and a column as the
  list of the cells of a field. The columns the script names are fields of the record;
  every other column of the file (\<^verbatim>\<open>show_id\<close>, \<^verbatim>\<open>cast\<close>, \<^verbatim>\<open>description\<close>, ...) is
  kept in \<open>other_columns\<close>, because \<^verbatim>\<open>dropna()\<close> looks at all of them.

  Numbers that pandas holds as 64-bit floats (means, ratios, percentages) are modelled
  as exact rationals; the year column is a column of integers.
\<close>

datatype py_error = ZeroDivisionError | IndexError | ValueError | KeyError

datatype timestamp = Timestamp (dt_year: int) (dt_month: nat) (dt_day: nat)

record ('d, 'y) row =
  type :: "string option"
  title :: "string option"
  director :: "string option"
  country :: "string option"
  date_added :: "'d option"
  release_year :: "'y option"
  rating :: "string option"
  duration :: "string option"
  listed_in :: "string option"
  other_columns :: "string option list"

text \<open>A row as \<^verbatim>\<open>read_csv\<close> returns it, and a row after the two coercions.\<close>

type_synonym csv_row = "(string, string) row"
type_synonym typed_row = "(timestamp, int) row"

section \<open>Load and clean (lines 43-53)\<close>

text \<open>
  \<^verbatim>\<open>pd.to_datetime(..., errors='coerce')\<close> and \<^verbatim>\<open>pd.to_numeric(..., errors='coerce')\<close> are
  library parsers: they are parameters of the model. Each is given the column and the
  text of a cell, because the library reads a column as a whole (it may infer the date
  format from it). With \<open>errors='coerce'\<close> a cell that does not parse becomes null, and a
  null cell stays null.
\<close>

definition coerce_row ::
  "(string \<Rightarrow> timestamp option) \<Rightarrow> (string \<Rightarrow> int option) \<Rightarrow> csv_row \<Rightarrow> typed_row" where
  "coerce_row to_datetime to_numeric r =
     \<lparr> type = type r, title = title r, director = director r, country = country r,
       date_added = Option.bind (date_added r) to_datetime,
       release_year = Option.bind (release_year r) to_numeric,
       rating = rating r, duration = duration r, listed_in = listed_in r,
       other_columns = other_columns r \<rparr>"

text \<open>\<^verbatim>\<open>df.isna()\<close> of one row: one flag per column.\<close>

definition isna :: "typed_row \<Rightarrow> bool list" where
  "isna r =
     [type r = None, title r = None, director r = None, country r = None,
      date_added r = None, release_year r = None, rating r = None, duration r = None,
      listed_in r = None] @ map (\<lambda>c. c = None) (other_columns r)"

text \<open>\<^verbatim>\<open>df.dropna()\<close>: axis 0, how 'any'.\<close>

definition dropna :: "typed_row list \<Rightarrow> typed_row list" where
  "dropna df = filter (\<lambda>r. \<not> list_ex (\<lambda>b. b) (isna r)) df"

definition load_and_clean_data ::
  "(string option list \<Rightarrow> string \<Rightarrow> timestamp option) \<Rightarrow>
   (string option list \<Rightarrow> string \<Rightarrow> int option) \<Rightarrow> csv_row list
     \<Rightarrow> typed_row list \<times> typed_row list" where
  "load_and_clean_data to_datetime to_numeric csv =
     (let df = map (coerce_row (to_datetime (map date_added csv))
                      (to_numeric (map release_year csv))) csv;
          df_clean = dropna df
      in (df, df_clean))"

section \<open>Cleaning summary (lines 66-77)\<close>

definition original_rows :: "typed_row list \<Rightarrow> int" where
  "original_rows df_original = int (length df_original)"

definition cleaned_rows :: "typed_row list \<Rightarrow> int" where
  "cleaned_rows df = int (length df)"

definition removed :: "typed_row list \<Rightarrow> typed_row list \<Rightarrow> int" where
  "removed df_original df = original_rows df_original - cleaned_rows df"

text \<open>Python's \<^verbatim>\<open>/\<close> on two ints raises ZeroDivisionError when the divisor is 0.\<close>

definition py_truediv :: "int \<Rightarrow> int \<Rightarrow> py_error + rat" where
  "py_truediv a b = (if b = 0 then Inl ZeroDivisionError else Inr (rat_of_int a / rat_of_int b))"

definition pct_removed :: "typed_row list \<Rightarrow> typed_row list \<Rightarrow> py_error + rat" where
  "pct_removed df_original df =
     (case py_truediv (removed df_original df) (original_rows df_original) of
        Inl e \<Rightarrow> Inl e
      | Inr q \<Rightarrow> Inr (q * 100))"

section \<open>Filter (lines 98-101)\<close>

text \<open>
  The two masks are boolean columns; a null cell is in no list of strings and between no
  two bounds. \<open>between\<close> is inclusive on both sides (pandas' default).
\<close>

definition isin :: "string option list \<Rightarrow> string list \<Rightarrow> bool list" where
  "isin col vals = map (\<lambda>c. case c of None \<Rightarrow> False | Some v \<Rightarrow> v \<in> set vals) col"

definition between :: "int option list \<Rightarrow> int \<Rightarrow> int \<Rightarrow> bool list" where
  "between col left right =
     map (\<lambda>c. case c of None \<Rightarrow> False | Some y \<Rightarrow> left \<le> y \<and> y \<le> right) col"

definition mask_and :: "bool list \<Rightarrow> bool list \<Rightarrow> bool list" where
  "mask_and m1 m2 = map (\<lambda>(a, b). a \<and> b) (zip m1 m2)"

text \<open>Boolean indexing \<^verbatim>\<open>df[mask]\<close>: the rows whose flag is set, in order.\<close>

definition getitem_mask :: "'a list \<Rightarrow> bool list \<Rightarrow> 'a list" where
  "getitem_mask df flags = map fst (filter snd (zip df flags))"

definition df_filtered :: "typed_row list \<Rightarrow> string list \<Rightarrow> int \<Rightarrow> int \<Rightarrow> typed_row list" where
  "df_filtered df selected_content_types min_year max_year =
     getitem_mask df
       (mask_and (isin (map type df) selected_content_types)
                 (between (map release_year df) min_year max_year))"

section \<open>Column operations used by the aggregates\<close>

definition eq_mask :: "string option list \<Rightarrow> string \<Rightarrow> bool list" where
  "eq_mask col v = map (\<lambda>c. c = Some v) col"

text \<open>The non-null values of a column, in order.\<close>

definition notna_values :: "'a option list \<Rightarrow> 'a list" where
  "notna_values col = concat (map (\<lambda>c. case c of None \<Rightarrow> [] | Some v \<Rightarrow> [v]) col)"

text \<open>
  Python's \<^verbatim>\<open>s.split(sep)\<close> for a non-empty separator: left to right, non-overlapping;
  the result is never empty (\<^verbatim>\<open>''.split(', ') == ['']\<close>).
\<close>

fun str_split_from :: "string \<Rightarrow> string \<Rightarrow> string \<Rightarrow> string list" where
  "str_split_from sep cur [] = [cur]"
| "str_split_from sep cur (c # s) =
     (if sep \<noteq> [] \<and> prefix sep (c # s)
      then cur # str_split_from sep [] (drop (length sep) (c # s))
      else str_split_from sep (cur @ [c]) s)"

definition str_split :: "string option list \<Rightarrow> string \<Rightarrow> string list option list" where
  "str_split col sep = map (map_option (str_split_from sep [])) col"

text \<open>\<^verbatim>\<open>explode()\<close>: one entry per list element; a null or an empty list gives one null.\<close>

definition explode :: "'a list option list \<Rightarrow> 'a option list" where
  "explode col =
     concat (map (\<lambda>c. case c of None \<Rightarrow> [None]
                              | Some vs \<Rightarrow> if vs = [] then [None] else map Some vs) col)"

text \<open>The distinct values of a list in order of first appearance.\<close>

fun unique :: "'a list \<Rightarrow> 'a list" where
  "unique [] = []"
| "unique (x # xs) = x # unique (filter (\<lambda>y. y \<noteq> x) xs)"

definition nunique :: "'a option list \<Rightarrow> nat" where
  "nunique col = length (unique (notna_values col))"

text \<open>
  \<^verbatim>\<open>sort_values(ascending=False)\<close> on a table of (label, count) entries: descending by
  count. The script leaves the order of equal counts to the library's sort; it is
  modelled as a stable sort, which is the tie policy the specification documents.
\<close>

definition sort_values_desc :: "('a \<times> nat) list \<Rightarrow> ('a \<times> nat) list" where
  "sort_values_desc tbl = sort_key (\<lambda>p. - int (snd p)) tbl"

text \<open>
  \<^verbatim>\<open>value_counts()\<close>: nulls dropped, one entry per distinct value with its number of
  occurrences, the distinct values taken in order of first appearance and then sorted by
  count, descending.
\<close>

definition value_counts :: "'a option list \<Rightarrow> ('a \<times> nat) list" where
  "value_counts col =
     (let xs = notna_values col
      in sort_values_desc (map (\<lambda>v. (v, count_list xs v)) (unique xs)))"

definition head :: "nat \<Rightarrow> 'a list \<Rightarrow> 'a list" where
  "head n tbl = take n tbl"



text \<open>\<^verbatim>\<open>mean()\<close> skips nulls; the mean of no value is NaN (here \<open>None\<close>).\<close>

definition mean :: "rat option list \<Rightarrow> rat option" where
  "mean col =
     (let xs = notna_values col
      in if xs = [] then None else Some (sum_list xs / of_nat (length xs)))"

text \<open>Python's \<^verbatim>\<open>int(x)\<close> on a float truncates toward zero and raises ValueError on NaN.\<close>

definition py_int :: "rat option \<Rightarrow> py_error + int" where
  "py_int x =
     (case x of None \<Rightarrow> Inl ValueError
              | Some q \<Rightarrow> Inr (if q < 0 then \<lceil>q\<rceil> else \<lfloor>q\<rfloor>))"

section \<open>Numeric extraction (lines 267 and 296)\<close>

text \<open>
  \<^verbatim>\<open>.str.extract(r'(\d+)')\<close> is a regular expression search: the leftmost match of
  \<^verbatim>\<open>\d+\<close>, greedy, anywhere in the string; no match gives a null. \<^verbatim>\<open>.astype(float)\<close>
  reads the matched digits as a number. Strings are ASCII here, so \<^verbatim>\<open>\d\<close> is 0-9.
\<close>

definition isdigit :: "char \<Rightarrow> bool" where
  "isdigit c = (c \<in> set ''0123456789'')"

definition str_extract :: "string \<Rightarrow> string option" where
  "str_extract s =
     (case dropWhile (\<lambda>c. \<not> isdigit c) s of
        [] \<Rightarrow> None
      | d # rest \<Rightarrow> Some (takeWhile isdigit (d # rest)))"

definition digit_value :: "char \<Rightarrow> nat" where
  "digit_value c = of_char c - 48"

definition astype_float :: "string \<Rightarrow> nat" where
  "astype_float ds = foldl (\<lambda>n c. 10 * n + digit_value c) 0 ds"

definition extract_number :: "string option list \<Rightarrow> nat option list" where
  "extract_number col =
     map (\<lambda>c. Option.bind c (\<lambda>s. map_option astype_float (str_extract s))) col"

section \<open>The aggregates over the filtered view (lines 108-257)\<close>

definition movies_count :: "typed_row list \<Rightarrow> nat" where
  "movies_count view = length (getitem_mask view (eq_mask (map type view) ''Movie''))"

definition shows_count :: "typed_row list \<Rightarrow> nat" where
  "shows_count view = length (getitem_mask view (eq_mask (map type view) ''TV Show''))"

definition countries_list :: "typed_row list \<Rightarrow> string option list" where
  "countries_list view = explode (str_split (map country view) '', '')"

definition genres_list :: "typed_row list \<Rightarrow> string option list" where
  "genres_list view = explode (str_split (map listed_in view) '', '')"

definition countries :: "typed_row list \<Rightarrow> nat" where
  "countries view = nunique (countries_list view)"

definition genres :: "typed_row list \<Rightarrow> nat" where
  "genres view = nunique (genres_list view)"



definition top_genres :: "typed_row list \<Rightarrow> (string \<times> nat) list" where
  "top_genres view = head 15 (value_counts (genres_list view))"


definition top_countries :: "typed_row list \<Rightarrow> (string \<times> nat) list" where
  "top_countries view = head 15 (value_counts (countries_list view))"



section \<open>Key insights (lines 326-349)\<close>

datatype insight =
    ContentMix rat
  | OnlyMoviesSelected
  | MostPopularGenre string
  | AverageReleaseYear int
  | NoDataAvailable

definition content_mix :: "typed_row list \<Rightarrow> py_error + insight" where
  "content_mix view =
     (if shows_count view > 0
      then (case py_truediv (int (movies_count view)) (int (shows_count view)) of
              Inl e \<Rightarrow> Inl e
            | Inr ratio \<Rightarrow> Inr (ContentMix ratio))
      else Inr OnlyMoviesSelected)"


definition avg_year :: "typed_row list \<Rightarrow> rat option" where
  "avg_year view = mean (map (map_option rat_of_int) (map release_year view))"

definition average_release_year :: "typed_row list \<Rightarrow> py_error + insight" where
  "average_release_year view =
     (if length view > 0
      then (case py_int (avg_year view) of
              Inl e \<Rightarrow> Inl e
            | Inr y \<Rightarrow> Inr (AverageReleaseYear y))
      else Inr NoDataAvailable)"

section \<open>Frames as objects: the store\<close>

text \<open>
  The script holds its frames by reference and adds a column to two of them in place
  (lines 267 and 296). To say which frame an assignment changes, frames live in a store:
  a list of frames, addressed by position. Boolean indexing and \<^verbatim>\<open>.copy()\<close> allocate a
  new frame at the end of the store; a column assignment updates the frame at its
  address. A frame has the rows of the file's columns and the columns added later.
  Frames that the script builds, reads once and drops (lines 111, 115, 356) are computed
  as values and get no address.
\<close>

record frame =
  rows :: "typed_row list"
  added :: "(string \<times> nat option list) list"

type_synonym store = "frame list"

definition new_frame :: "store \<Rightarrow> frame \<Rightarrow> store \<times> nat" where
  "new_frame st f = (st @ [f], length st)"

definition frame_getitem_mask :: "store \<Rightarrow> nat \<Rightarrow> bool list \<Rightarrow> store \<times> nat" where
  "frame_getitem_mask st a flags =
     new_frame st
       \<lparr> rows = getitem_mask (rows (st ! a)) flags,
         added = map (\<lambda>(name, col). (name, getitem_mask col flags)) (added (st ! a)) \<rparr>"

definition frame_copy :: "store \<Rightarrow> nat \<Rightarrow> store \<times> nat" where
  "frame_copy st a = new_frame st (st ! a)"

text \<open>\<^verbatim>\<open>frame[name] = col\<close>: in place; a column of that name is replaced.\<close>

definition frame_setitem :: "store \<Rightarrow> nat \<Rightarrow> string \<Rightarrow> nat option list \<Rightarrow> store" where
  "frame_setitem st a name col =
     st[a := (st ! a)\<lparr> added := filter (\<lambda>p. fst p \<noteq> name) (added (st ! a)) @ [(name, col)] \<rparr>]"

definition frame_column :: "store \<Rightarrow> nat \<Rightarrow> string \<Rightarrow> nat option list" where
  "frame_column st a name = (case map_of (added (st ! a)) name of None \<Rightarrow> [] | Some col \<Rightarrow> col)"

section \<open>Duration analysis (lines 263-319)\<close>

text \<open>
  A panel is either the column handed to the histogram with its mean, or the notice the
  script shows instead. The histogram itself is drawn by the chart library, which leaves
  null entries out: \<open>histogram_values\<close> is what it bins.
\<close>

datatype panel = Chart "nat option list" "rat option" | Info string

definition histogram_values :: "nat option list \<Rightarrow> nat list" where
  "histogram_values col = notna_values col"

definition duration_panel ::
  "store \<Rightarrow> nat \<Rightarrow> string \<Rightarrow> string \<Rightarrow> string \<Rightarrow> store \<times> nat \<times> panel" where
  "duration_panel st view_at content_type name notice =
     (let (st1, selected) =
            frame_getitem_mask st view_at (eq_mask (map type (rows (st ! view_at))) content_type);
          (st2, sub_df) = frame_copy st1 selected
      in if length (rows (st2 ! sub_df)) > 0
         then (let st3 = frame_setitem st2 sub_df name
                           (extract_number (map duration (rows (st2 ! sub_df))));
                   col = frame_column st3 sub_df name
               in (st3, sub_df, Chart col (mean (map (map_option of_nat) col))))
         else (st2, sub_df, Info notice))"

section \<open>The page from the filter down (lines 98-356)\<close>



section \<open>Example data\<close>

text \<open>
  The five records of the specification's end-to-end scenario, completed with values for
  the columns the scenario leaves open, and a small raw file with two defective rows.
\<close>

definition scenario_row :: "string \<Rightarrow> int \<Rightarrow> string \<Rightarrow> string \<Rightarrow> typed_row" where
  "scenario_row t y d c =
     \<lparr> type = Some t, title = Some ''Title'', director = Some ''Director'',
       country = Some c, date_added = Some (Timestamp 2021 9 25), release_year = Some y,
       rating = Some ''PG-13'', duration = Some d, listed_in = Some ''Dramas, Comedies'',
       other_columns = [Some ''s1''] \<rparr>"

definition scenario :: "typed_row list" where
  "scenario =
     [scenario_row ''Movie'' 2020 ''90 min'' ''US, UK'',
      scenario_row ''Movie'' 2019 ''120 min'' ''US'',
      scenario_row ''TV Show'' 2020 ''2 Seasons'' ''UK'',
      scenario_row ''TV Show'' 2021 ''5 Seasons'' ''US'',
      scenario_row ''Movie'' 2021 ''95 min'' ''IN'']"

definition example_to_datetime :: "string option list \<Rightarrow> string \<Rightarrow> timestamp option" where
  "example_to_datetime col s =
     (if s = ''September 25, 2021'' then Some (Timestamp 2021 9 25) else None)"

definition example_to_numeric :: "string option list \<Rightarrow> string \<Rightarrow> int option" where
  "example_to_numeric col s =
     (if s \<noteq> [] \<and> list_all isdigit s then Some (int (astype_float s)) else None)"

definition example_csv_row :: "string option \<Rightarrow> string \<Rightarrow> string \<Rightarrow> csv_row" where
  "example_csv_row dir date year =
     \<lparr> type = Some ''Movie'', title = Some ''Title'', director = dir,
       country = Some ''US'', date_added = Some date, release_year = Some year,
       rating = Some ''PG-13'', duration = Some ''90 min'', listed_in = Some ''Dramas'',
       other_columns = [Some ''s1''] \<rparr>"

definition example_csv :: "csv_row list" where
  "example_csv =
     [example_csv_row (Some ''Director'') ''September 25, 2021'' ''2020'',
      example_csv_row None ''September 25, 2021'' ''2020'',
      example_csv_row (Some ''Director'') ''not a date'' ''2020'',
      example_csv_row (Some ''Director'') ''September 25, 2021'' ''MMXX'']"

text \<open>A view with sixteen countries, one of them listed twice.\<close>

definition wide_view :: "typed_row list" where
  "wide_view =
     [scenario_row ''Movie'' 2020 ''90 min'' ''B, A, C, D, E, F, G, H, I, J, K, L, M, N, O, P'',
      scenario_row ''Movie'' 2021 ''95 min'' ''A'']"

definition scenario_store :: store where
  "scenario_store = [\<lparr> rows = scenario, added = [] \<rparr>]"

section \<open>Cleaning\<close>

lemma complete_row:
  "(\<not> list_ex (\<lambda>b. b) (isna r)) =
     (type r \<noteq> None \<and> title r \<noteq> None \<and> director r \<noteq> None \<and> country r \<noteq> None \<and>
      date_added r \<noteq> None \<and> release_year r \<noteq> None \<and> rating r \<noteq> None \<and>
      duration r \<noteq> None \<and> listed_in r \<noteq> None \<and> None \<notin> set (other_columns r))"
  unfolding isna_def by (auto simp: list_ex_iff)

text \<open>
  C1. For every raw frame, \<open>load_and_clean_data\<close> returns the coerced frame and, as the
  cleaned frame, exactly its rows in which every field is non-null after the two
  coercions, in order; and the summary's counts satisfy
  cleaned + removed = original.
\<close>

theorem load_and_clean_data_complete_rows:
  "(case load_and_clean_data to_datetime to_numeric csv of (df, df_clean) \<Rightarrow>
      df = map (coerce_row (to_datetime (map date_added csv))
                  (to_numeric (map release_year csv))) csv \<and>
      df_clean =
        filter (\<lambda>r. type r \<noteq> None \<and> title r \<noteq> None \<and> director r \<noteq> None \<and>
                    country r \<noteq> None \<and> date_added r \<noteq> None \<and> release_year r \<noteq> None \<and>
                    rating r \<noteq> None \<and> duration r \<noteq> None \<and> listed_in r \<noteq> None \<and>
                    None \<notin> set (other_columns r)) df \<and>
      subseq df_clean df \<and>
      cleaned_rows df_clean + removed df df_clean = original_rows df \<and>
      0 \<le> removed df df_clean)"
  unfolding load_and_clean_data_def Let_def dropna_def complete_row
  by (simp add: removed_def cleaned_rows_def original_rows_def)

theorem load_and_clean_data_complete_rows_witness:
  "(case load_and_clean_data example_to_datetime example_to_numeric example_csv of
      (df, df_clean) \<Rightarrow>
      df = map (coerce_row (example_to_datetime (map date_added example_csv))
                  (example_to_numeric (map release_year example_csv))) example_csv \<and>
      df_clean =
        filter (\<lambda>r. type r \<noteq> None \<and> title r \<noteq> None \<and> director r \<noteq> None \<and>
                    country r \<noteq> None \<and> date_added r \<noteq> None \<and> release_year r \<noteq> None \<and>
                    rating r \<noteq> None \<and> duration r \<noteq> None \<and> listed_in r \<noteq> None \<and>
                    None \<notin> set (other_columns r)) df \<and>
      subseq df_clean df \<and>
      cleaned_rows df_clean + removed df df_clean = original_rows df \<and>
      0 \<le> removed df df_clean) \<and>
   snd (load_and_clean_data example_to_datetime example_to_numeric example_csv) =
     [\<lparr> type = Some ''Movie'', title = Some ''Title'', director = Some ''Director'',
        country = Some ''US'', date_added = Some (Timestamp 2021 9 25),
        release_year = Some 2020, rating = Some ''PG-13'', duration = Some ''90 min'',
        listed_in = Some ''Dramas'', other_columns = [Some ''s1''] \<rparr>]"
proof -
  have "snd (load_and_clean_data example_to_datetime example_to_numeric example_csv) =
     [\<lparr> type = Some ''Movie'', title = Some ''Title'', director = Some ''Director'',
        country = Some ''US'', date_added = Some (Timestamp 2021 9 25),
        release_year = Some 2020, rating = Some ''PG-13'', duration = Some ''90 min'',
        listed_in = Some ''Dramas'', other_columns = [Some ''s1''] \<rparr>]"
    by code_simp
  then show ?thesis
    by (rule conjI
          [OF load_and_clean_data_complete_rows
                [where to_datetime = example_to_datetime
                   and to_numeric = example_to_numeric and csv = example_csv]])
qed

section \<open>Filter\<close>

lemma getitem_mask_map: "getitem_mask xs (map P xs) = filter P xs"
  unfolding getitem_mask_def by (induction xs) simp_all

lemma mask_and_map: "mask_and (map P xs) (map Q xs) = map (\<lambda>x. P x \<and> Q x) xs"
  unfolding mask_and_def by (induction xs) simp_all

lemma isin_map: "isin (map f xs) vals = map (\<lambda>x. \<exists>v. f x = Some v \<and> v \<in> set vals) xs"
  unfolding isin_def by (simp split: option.split)

lemma between_map:
  "between (map f xs) lo hi = map (\<lambda>x. \<exists>y. f x = Some y \<and> lo \<le> y \<and> y \<le> hi) xs"
  unfolding between_def by (simp split: option.split)

lemma eq_mask_map: "eq_mask (map f xs) v = map (\<lambda>x. f x = Some v) xs"
  unfolding eq_mask_def by simp

lemma df_filtered_filter:
  "df_filtered df sel lo hi =
     filter (\<lambda>r. (\<exists>t. type r = Some t \<and> t \<in> set sel) \<and>
                 (\<exists>y. release_year r = Some y \<and> lo \<le> y \<and> y \<le> hi)) df"
  unfolding df_filtered_def by (simp only: isin_map between_map mask_and_map getitem_mask_map)

text \<open>
  C2. For every frame and every filter specification, the filtered view is exactly the
  rows whose type is one of the selected content types and whose release year lies
  between the two bounds, both inclusive; it is a subsequence of the frame, in the
  frame's order.
\<close>

theorem df_filtered_exact:
  "df_filtered df selected_content_types min_year max_year =
     filter (\<lambda>r. (\<exists>t. type r = Some t \<and> t \<in> set selected_content_types) \<and>
                 (\<exists>y. release_year r = Some y \<and> min_year \<le> y \<and> y \<le> max_year)) df \<and>
   subseq (df_filtered df selected_content_types min_year max_year) df"
  by (simp add: df_filtered_filter)

theorem df_filtered_exact_witness:
  "(df_filtered scenario [''Movie''] 2019 2020 =
     filter (\<lambda>r. (\<exists>t. type r = Some t \<and> t \<in> set [''Movie'']) \<and>
                 (\<exists>y. release_year r = Some y \<and> 2019 \<le> y \<and> y \<le> 2020)) scenario \<and>
    subseq (df_filtered scenario [''Movie''] 2019 2020) scenario) \<and>
   df_filtered scenario [''Movie''] 2019 2020 =
     [scenario_row ''Movie'' 2020 ''90 min'' ''US, UK'',
      scenario_row ''Movie'' 2019 ''120 min'' ''US'']"
proof -
  have "df_filtered scenario [''Movie''] 2019 2020 =
     [scenario_row ''Movie'' 2020 ''90 min'' ''US, UK'',
      scenario_row ''Movie'' 2019 ''120 min'' ''US'']"
    by code_simp
  then show ?thesis
    by (rule conjI [OF df_filtered_exact [of scenario "[''Movie'']" 2019 2020]])
qed

section \<open>Counts of movies and shows\<close>

lemma movies_count_filter:
  "movies_count view = length (filter (\<lambda>r. type r = Some ''Movie'') view)"
  unfolding movies_count_def by (simp only: eq_mask_map getitem_mask_map)

lemma shows_count_filter:
  "shows_count view = length (filter (\<lambda>r. type r = Some ''TV Show'') view)"
  unfolding shows_count_def by (simp only: eq_mask_map getitem_mask_map)

text \<open>
  C7. For every view, the content-mix insight is the quotient movies / shows when the
  view has at least one TV Show row, and the "only movies selected" notice, with no
  division, when it has none.
\<close>

theorem content_mix_ratio_or_sentinel:
  "movies_count view = length (filter (\<lambda>r. type r = Some ''Movie'') view) \<and>
   shows_count view = length (filter (\<lambda>r. type r = Some ''TV Show'') view) \<and>
   (0 < shows_count view \<longrightarrow>
      content_mix view =
        Inr (ContentMix (of_nat (movies_count view) / of_nat (shows_count view)))) \<and>
   (shows_count view = 0 \<longrightarrow> content_mix view = Inr OnlyMoviesSelected)"
  by (simp add: movies_count_filter shows_count_filter content_mix_def py_truediv_def)

theorem content_mix_ratio_or_sentinel_witness:
  "content_mix scenario = Inr (ContentMix (3 / 2)) \<and>
   content_mix (df_filtered scenario [''Movie''] 2019 2021) = Inr OnlyMoviesSelected"
proof -
  have m: "movies_count scenario = 3" and s: "shows_count scenario = 2"
    by code_simp+
  have s': "shows_count (df_filtered scenario [''Movie''] 2019 2021) = 0"
    by code_simp
  from content_mix_ratio_or_sentinel [of scenario] m s
  have "content_mix scenario = Inr (ContentMix (3 / 2))" by simp
  moreover from content_mix_ratio_or_sentinel [of "df_filtered scenario [''Movie''] 2019 2021"] s'
  have "content_mix (df_filtered scenario [''Movie''] 2019 2021) = Inr OnlyMoviesSelected"
    by simp
  ultimately show ?thesis by (rule conjI)
qed

section \<open>Removed percentage\<close>

text \<open>
  C10. For every raw frame with at least one row, the removed percentage is
  (original - cleaned) / original * 100 and its computation returns; on an empty raw
  frame the division raises ZeroDivisionError, so a non-empty input is necessary.
\<close>

theorem pct_removed_total_iff_nonempty:
  "(case load_and_clean_data to_datetime to_numeric csv of (df_original, df) \<Rightarrow>
     (csv \<noteq> [] \<longrightarrow>
        pct_removed df_original df =
          Inr (rat_of_int (original_rows df_original - cleaned_rows df)
                 / rat_of_int (original_rows df_original) * 100)) \<and>
     (csv = [] \<longrightarrow> pct_removed df_original df = Inl ZeroDivisionError))"
  by (simp add: load_and_clean_data_def Let_def pct_removed_def py_truediv_def removed_def
        original_rows_def)

theorem pct_removed_total_iff_nonempty_witness:
  "(case load_and_clean_data example_to_datetime example_to_numeric example_csv of
      (df_original, df) \<Rightarrow> pct_removed df_original df = Inr 75) \<and>
   (case load_and_clean_data example_to_datetime example_to_numeric [] of
      (df_original, df) \<Rightarrow> pct_removed df_original df = Inl ZeroDivisionError)"
proof -
  have ne: "example_csv \<noteq> []"
    by (simp add: example_csv_def)
  have o: "original_rows (fst (load_and_clean_data example_to_datetime example_to_numeric
             example_csv)) = 4"
    by code_simp
  have c: "cleaned_rows (snd (load_and_clean_data example_to_datetime example_to_numeric
             example_csv)) = 1"
    by code_simp
  from pct_removed_total_iff_nonempty
         [where to_datetime = example_to_datetime and to_numeric = example_to_numeric
            and csv = example_csv]
    ne o c
  have "(case load_and_clean_data example_to_datetime example_to_numeric example_csv of
      (df_original, df) \<Rightarrow> pct_removed df_original df = Inr 75)"
    by (simp add: case_prod_beta)
  moreover from pct_removed_total_iff_nonempty
         [where to_datetime = example_to_datetime and to_numeric = example_to_numeric
            and csv = "[]"]
  have "(case load_and_clean_data example_to_datetime example_to_numeric [] of
      (df_original, df) \<Rightarrow> pct_removed df_original df = Inl ZeroDivisionError)"
    by (simp add: case_prod_beta)
  ultimately show ?thesis by (rule conjI)
qed

section \<open>Distinct values and counts\<close>

lemma set_unique: "set (unique xs) = set xs"
  by (induction xs rule: unique.induct) auto

lemma distinct_unique: "distinct (unique xs)"
  by (induction xs rule: unique.induct) (auto simp: set_unique)

lemma sum_list_count_unique: "sum_list (map (count_list xs) (unique xs)) = length xs"
proof -
  have "sum_list (map (count_list xs) (unique xs)) = sum (count_list xs) (set (unique xs))"
    by (rule sum_list_distinct_conv_sum_set [OF distinct_unique])
  also have "\<dots> = length xs"
    by (simp add: set_unique sum_count_set)
  finally show ?thesis .
qed

lemma takeWhile_filter_commute:
  "(\<And>y. \<not> P y \<Longrightarrow> Q y) \<Longrightarrow> takeWhile P (filter Q xs) = filter Q (takeWhile P xs)"
  by (induction xs) auto

lemma first_seen_less:
  assumes "a \<in> set (takeWhile (\<lambda>x. x \<noteq> b) xs)"
  shows "length (takeWhile (\<lambda>x. x \<noteq> a) xs) < length (takeWhile (\<lambda>x. x \<noteq> b) xs)"
proof -
  let ?as = "takeWhile (\<lambda>x. x \<noteq> b) xs"
  have xs: "xs = ?as @ dropWhile (\<lambda>x. x \<noteq> b) xs" by simp
  have "takeWhile (\<lambda>x. x \<noteq> a) (?as @ dropWhile (\<lambda>x. x \<noteq> b) xs) = takeWhile (\<lambda>x. x \<noteq> a) ?as"
    using assms by (intro takeWhile_append1[of a]) auto
  then have eq: "takeWhile (\<lambda>x. x \<noteq> a) xs = takeWhile (\<lambda>x. x \<noteq> a) ?as"
    by simp
  have "takeWhile (\<lambda>x. x \<noteq> a) ?as \<noteq> ?as"
    using assms by (metis (mono_tags, lifting) takeWhile_eq_all_conv)
  moreover have "length (takeWhile (\<lambda>x. x \<noteq> a) ?as) \<le> length ?as"
    by (rule length_takeWhile_le)
  moreover have "length (takeWhile (\<lambda>x. x \<noteq> a) ?as) = length ?as \<Longrightarrow> takeWhile (\<lambda>x. x \<noteq> a) ?as = ?as"
    by (metis takeWhile_eq_take take_all_iff order_refl)
  ultimately have "length (takeWhile (\<lambda>x. x \<noteq> a) ?as) < length ?as"
    by (metis le_neq_implies_less)
  then show ?thesis using eq by simp
qed

lemma unique_first_seen_set:
  "sorted_wrt (\<lambda>a b. a \<in> set (takeWhile (\<lambda>x. x \<noteq> b) xs)) (unique xs)"
proof (induction xs rule: unique.induct)
  case 1
  show ?case by simp
next
  case (2 x xs)
  let ?ys = "filter (\<lambda>y. y \<noteq> x) xs"
  have step: "a \<in> set (takeWhile (\<lambda>z. z \<noteq> b) (x # xs))"
    if "b \<in> set (unique ?ys)" "a \<in> set (takeWhile (\<lambda>z. z \<noteq> b) ?ys)" for a b
  proof -
    have bx: "b \<noteq> x" using that(1) by (simp add: set_unique)
    have "takeWhile (\<lambda>z. z \<noteq> b) ?ys = filter (\<lambda>y. y \<noteq> x) (takeWhile (\<lambda>z. z \<noteq> b) xs)"
      using bx by (intro takeWhile_filter_commute) auto
    then have "a \<in> set (takeWhile (\<lambda>z. z \<noteq> b) xs)" using that(2) by simp
    then show ?thesis using bx by simp
  qed
  have "sorted_wrt (\<lambda>a b. a \<in> set (takeWhile (\<lambda>z. z \<noteq> b) (x # xs))) (unique ?ys)"
    by (rule sorted_wrt_mono_rel [OF _ "2.IH"]) (use step in blast)
  moreover have "\<forall>b \<in> set (unique ?ys). x \<in> set (takeWhile (\<lambda>z. z \<noteq> b) (x # xs))"
    by (auto simp: set_unique)
  ultimately show ?case by simp
qed

lemma unique_first_seen:
  "sorted_wrt (\<lambda>a b. length (takeWhile (\<lambda>x. x \<noteq> a) xs) < length (takeWhile (\<lambda>x. x \<noteq> b) xs))
     (unique xs)"
  by (rule sorted_wrt_mono_rel [OF _ unique_first_seen_set]) (rule first_seen_less)

lemma insort_key_keeps_order:
  fixes f :: "'a \<Rightarrow> int"
  assumes "sorted_wrt (\<lambda>a b. f a < f b \<or> (f a = f b \<and> G a b)) S"
    and "\<forall>q \<in> set S. G p q"
  shows "sorted_wrt (\<lambda>a b. f a < f b \<or> (f a = f b \<and> G a b)) (insort_key f p S)"
  using assms
proof (induction S)
  case Nil
  show ?case by simp
next
  case (Cons y ys)
  show ?case
  proof (cases "f p \<le> f y")
    case True
    have "f p < f z \<or> (f p = f z \<and> G p z)" if "z \<in> set (y # ys)" for z
    proof -
      have "f y \<le> f z" using Cons.prems(1) that by auto
      moreover have "G p z" using Cons.prems(2) that by blast
      ultimately show ?thesis using True by linarith
    qed
    then show ?thesis using True Cons.prems(1) by simp
  next
    case False
    have "sorted_wrt (\<lambda>a b. f a < f b \<or> (f a = f b \<and> G a b)) (insort_key f p ys)"
      using Cons by simp
    moreover have "\<forall>z \<in> set (insort_key f p ys). f y < f z \<or> (f y = f z \<and> G y z)"
      using Cons.prems(1) False by (auto simp: set_insort_key)
    ultimately show ?thesis using False by simp
  qed
qed

lemma sort_key_keeps_order:
  fixes f :: "'a \<Rightarrow> int"
  assumes "sorted_wrt G ps"
  shows "sorted_wrt (\<lambda>a b. f a < f b \<or> (f a = f b \<and> G a b)) (sort_key f ps)"
  using assms
proof (induction ps)
  case Nil
  show ?case by simp
next
  case (Cons p ps)
  have "sorted_wrt (\<lambda>a b. f a < f b \<or> (f a = f b \<and> G a b)) (sort_key f ps)"
    using Cons by simp
  moreover have "\<forall>q \<in> set (sort_key f ps). G p q"
    using Cons.prems by simp
  ultimately show ?case
    by (simp add: sort_key_simps insort_key_keeps_order)
qed

lemma sum_list_snd_insort_key:
  "sum_list (map snd (insort_key f p ps)) = snd p + sum_list (map snd ps)"
  for p :: "'a \<times> nat"
  by (induction ps) simp_all

lemma sum_list_snd_sort_key:
  "sum_list (map snd (sort_key f ps)) = sum_list (map snd ps)"
  for ps :: "('a \<times> nat) list"
  by (induction ps) (simp_all add: sort_key_simps sum_list_snd_insort_key)

lemma distinct_fst_insort_key:
  "distinct (map fst (insort_key f p ps)) = (fst p \<notin> fst ` set ps \<and> distinct (map fst ps))"
  by (induction ps) (auto simp: set_insort_key)

lemma distinct_fst_sort_key:
  "distinct (map fst (sort_key f ps)) = distinct (map fst ps)"
  by (induction ps) (simp_all add: sort_key_simps distinct_fst_insort_key)

lemma set_value_counts:
  "set (value_counts col) =
     (\<lambda>v. (v, count_list (notna_values col) v)) ` set (notna_values col)"
  unfolding value_counts_def Let_def sort_values_desc_def by (simp add: set_unique)

lemma distinct_value_counts: "distinct (map fst (value_counts col))"
  unfolding value_counts_def Let_def sort_values_desc_def
  by (simp add: distinct_fst_sort_key comp_def distinct_unique)

lemma length_value_counts: "length (value_counts col) = nunique col"
  unfolding value_counts_def Let_def sort_values_desc_def nunique_def by simp

lemma sum_value_counts: "sum_list (map snd (value_counts col)) = length (notna_values col)"
  unfolding value_counts_def Let_def sort_values_desc_def
  by (simp add: sum_list_snd_sort_key comp_def sum_list_count_unique)

lemma sorted_value_counts:
  "sorted_wrt
     (\<lambda>p q. snd q < snd p \<or>
            (snd p = snd q \<and>
             length (takeWhile (\<lambda>x. x \<noteq> fst p) (notna_values col))
               < length (takeWhile (\<lambda>x. x \<noteq> fst q) (notna_values col))))
     (value_counts col)"
proof -
  let ?xs = "notna_values col"
  let ?G = "\<lambda>p q :: 'a \<times> nat. length (takeWhile (\<lambda>x. x \<noteq> fst p) ?xs)
               < length (takeWhile (\<lambda>x. x \<noteq> fst q) ?xs)"
  let ?f = "\<lambda>p :: 'a \<times> nat. - int (snd p)"
  have "sorted_wrt ?G (map (\<lambda>v. (v, count_list ?xs v)) (unique ?xs))"
    using unique_first_seen [of ?xs] by (simp add: sorted_wrt_map)
  then have "sorted_wrt (\<lambda>a b. ?f a < ?f b \<or> (?f a = ?f b \<and> ?G a b))
               (sort_key ?f (map (\<lambda>v. (v, count_list ?xs v)) (unique ?xs)))"
    by (rule sort_key_keeps_order)
  then show ?thesis
    unfolding value_counts_def Let_def sort_values_desc_def by simp
qed

lemma sorted_wrt_take: "sorted_wrt R xs \<Longrightarrow> sorted_wrt R (take k xs)"
  by (metis append_take_drop_id sorted_wrt_append)

lemma head_value_counts_count:
  assumes "(v, n) \<in> set (head k (value_counts col))"
  shows "n = count_list (notna_values col) v"
proof -
  have "(v, n) \<in> set (value_counts col)"
    using assms unfolding head_def by (rule in_set_takeD)
  then show ?thesis by (auto simp: set_value_counts)
qed

lemma head_value_counts_top:
  assumes top: "(v, n) \<in> set (head k (value_counts col))"
    and out: "w \<notin> fst ` set (head k (value_counts col))"
  shows "count_list (notna_values col) w \<le> n"
proof (cases "w \<in> set (notna_values col)")
  case False
  then show ?thesis by simp
next
  case True
  let ?T = "value_counts col"
  let ?c = "count_list (notna_values col) w"
  have "(w, ?c) \<in> set ?T" using True by (auto simp: set_value_counts)
  moreover have "(w, ?c) \<notin> set (take k ?T)"
    using out unfolding head_def by force
  ultimately have d: "(w, ?c) \<in> set (drop k ?T)"
    by (metis Un_iff append_take_drop_id set_append)
  have "sorted_wrt (\<lambda>p q. snd q \<le> snd p) ?T"
    by (rule sorted_wrt_mono_rel [OF _ sorted_value_counts]) auto
  then have "sorted_wrt (\<lambda>p q. snd q \<le> snd p) (take k ?T @ drop k ?T)"
    by simp
  then have "\<forall>p \<in> set (take k ?T). \<forall>q \<in> set (drop k ?T). snd q \<le> snd p"
    unfolding sorted_wrt_append by blast
  then show ?thesis using top d unfolding head_def by fastforce
qed

lemma str_split_from_not_Nil: "str_split_from sep cur s \<noteq> []"
  by (induction sep cur s rule: str_split_from.induct) simp_all

lemma notna_explode_str_split:
  "notna_values (explode (str_split col sep)) =
     concat (map (\<lambda>c. case c of None \<Rightarrow> [] | Some s \<Rightarrow> str_split_from sep [] s) col)"
proof (induction col)
  case Nil
  show ?case by (simp add: notna_values_def explode_def str_split_def)
next
  case (Cons c col)
  have n: "notna_values (map Some vs) = vs" for vs :: "string list"
    by (induction vs) (simp_all add: notna_values_def)
  have a: "notna_values (xs @ ys) = notna_values xs @ notna_values ys" for xs ys :: "string option list"
    by (simp add: notna_values_def)
  have "explode (str_split (c # col) sep) =
          (case c of None \<Rightarrow> [None] | Some s \<Rightarrow> map Some (str_split_from sep [] s))
          @ explode (str_split col sep)"
    by (simp add: explode_def str_split_def str_split_from_not_Nil split: option.split)
  then show ?case
    using Cons by (simp add: a n notna_values_def[of "[None]"] split: option.split)
qed

lemma count_list_concat:
  "count_list (concat xss) v = sum_list (map (\<lambda>xs. count_list xs v) xss)"
  by (induction xss) simp_all

section \<open>Top-15 tables\<close>

lemma head_value_counts_props:
  "(\<forall>(v, n) \<in> set (head k (value_counts col)).
      n = count_list (notna_values col) v \<and>
      (\<forall>w. w \<notin> fst ` set (head k (value_counts col)) \<longrightarrow>
           count_list (notna_values col) w \<le> n)) \<and>
   sorted_wrt
     (\<lambda>(v, n) (w, m).
        m < n \<or>
        (n = m \<and> length (takeWhile (\<lambda>x. x \<noteq> v) (notna_values col))
                   < length (takeWhile (\<lambda>x. x \<noteq> w) (notna_values col))))
     (head k (value_counts col)) \<and>
   distinct (map fst (head k (value_counts col))) \<and>
   length (head k (value_counts col)) = min k (nunique col)"
proof (intro conjI)
  show "\<forall>(v, n) \<in> set (head k (value_counts col)).
      n = count_list (notna_values col) v \<and>
      (\<forall>w. w \<notin> fst ` set (head k (value_counts col)) \<longrightarrow>
           count_list (notna_values col) w \<le> n)"
    using head_value_counts_count [of _ _ k col] head_value_counts_top [of _ _ k col]
    by blast
  have "sorted_wrt
     (\<lambda>p q. snd q < snd p \<or>
            (snd p = snd q \<and>
             length (takeWhile (\<lambda>x. x \<noteq> fst p) (notna_values col))
               < length (takeWhile (\<lambda>x. x \<noteq> fst q) (notna_values col))))
     (head k (value_counts col))"
    unfolding head_def by (rule sorted_wrt_take [OF sorted_value_counts])
  then show "sorted_wrt
     (\<lambda>(v, n) (w, m).
        m < n \<or>
        (n = m \<and> length (takeWhile (\<lambda>x. x \<noteq> v) (notna_values col))
                   < length (takeWhile (\<lambda>x. x \<noteq> w) (notna_values col))))
     (head k (value_counts col))"
    by (rule sorted_wrt_mono_rel [rotated]) auto
  show "distinct (map fst (head k (value_counts col)))"
    unfolding head_def using distinct_value_counts [of col]
    by (simp add: take_map [symmetric] distinct_take)
  show "length (head k (value_counts col)) = min k (nunique col)"
    unfolding head_def by (simp add: length_value_counts min.commute)
qed

text \<open>
  C4. For every view, the top-15 table of the exploded genres, and of the exploded
  countries, holds each listed value with its number of occurrences; every listed value
  has a count at least that of every value not listed; the table is in descending order
  of count, and values of equal count stand in the order in which they are first
  encountered in the explosion. It has 15 entries, or all distinct values when there are
  fewer.
\<close>

theorem top_15_by_count_then_first_seen:
  "((\<forall>(v, n) \<in> set (top_genres view).
      n = count_list (notna_values (genres_list view)) v \<and>
      (\<forall>w. w \<notin> fst ` set (top_genres view) \<longrightarrow>
           count_list (notna_values (genres_list view)) w \<le> n)) \<and>
   sorted_wrt
     (\<lambda>(v, n) (w, m).
        m < n \<or>
        (n = m \<and> length (takeWhile (\<lambda>x. x \<noteq> v) (notna_values (genres_list view)))
                   < length (takeWhile (\<lambda>x. x \<noteq> w) (notna_values (genres_list view)))))
     (top_genres view) \<and>
   distinct (map fst (top_genres view)) \<and>
   length (top_genres view) = min 15 (genres view)) \<and>
  ((\<forall>(v, n) \<in> set (top_countries view).
      n = count_list (notna_values (countries_list view)) v \<and>
      (\<forall>w. w \<notin> fst ` set (top_countries view) \<longrightarrow>
           count_list (notna_values (countries_list view)) w \<le> n)) \<and>
   sorted_wrt
     (\<lambda>(v, n) (w, m).
        m < n \<or>
        (n = m \<and> length (takeWhile (\<lambda>x. x \<noteq> v) (notna_values (countries_list view)))
                   < length (takeWhile (\<lambda>x. x \<noteq> w) (notna_values (countries_list view)))))
     (top_countries view) \<and>
   distinct (map fst (top_countries view)) \<and>
   length (top_countries view) = min 15 (countries view))"
  unfolding top_genres_def top_countries_def genres_def countries_def
  by (rule conjI [OF head_value_counts_props head_value_counts_props])

theorem top_15_by_count_then_first_seen_witness:
  "top_countries wide_view =
     [(''A'', 2), (''B'', 1), (''C'', 1), (''D'', 1), (''E'', 1), (''F'', 1), (''G'', 1),
      (''H'', 1), (''I'', 1), (''J'', 1), (''K'', 1), (''L'', 1), (''M'', 1), (''N'', 1),
      (''O'', 1)] \<and>
   count_list (notna_values (countries_list wide_view)) ''P'' \<le> 1"
proof -
  have t: "top_countries wide_view =
     [(''A'', 2), (''B'', 1), (''C'', 1), (''D'', 1), (''E'', 1), (''F'', 1), (''G'', 1),
      (''H'', 1), (''I'', 1), (''J'', 1), (''K'', 1), (''L'', 1), (''M'', 1), (''N'', 1),
      (''O'', 1)]"
    by code_simp
  have i: "(''O'', 1) \<in> set (top_countries wide_view)"
    unfolding t by simp
  have o: "''P'' \<notin> fst ` set (top_countries wide_view)"
    unfolding t by simp
  have a: "\<forall>(v, n) \<in> set (top_countries wide_view).
      n = count_list (notna_values (countries_list wide_view)) v \<and>
      (\<forall>w. w \<notin> fst ` set (top_countries wide_view) \<longrightarrow>
           count_list (notna_values (countries_list wide_view)) w \<le> n)"
    by (rule top_15_by_count_then_first_seen [of wide_view, THEN conjunct2, THEN conjunct1])
  have "case (''O'', 1::nat) of (v, n) \<Rightarrow>
      n = count_list (notna_values (countries_list wide_view)) v \<and>
      (\<forall>w. w \<notin> fst ` set (top_countries wide_view) \<longrightarrow>
           count_list (notna_values (countries_list wide_view)) w \<le> n)"
    by (rule bspec [OF a i])
  then have "\<forall>w. w \<notin> fst ` set (top_countries wide_view) \<longrightarrow>
           count_list (notna_values (countries_list wide_view)) w \<le> 1"
    by (simp only: prod.case) (rule conjunct2)
  then have "count_list (notna_values (countries_list wide_view)) ''P'' \<le> 1"
    using o by blast
  with t show ?thesis by (rule conjI)
qed

section \<open>Explosion of the multi-valued fields\<close>

text \<open>
  C5. For every view and each of the two multi-valued fields, split at ", " and
  exploded: the counts of the frequency table sum to the number of delimited values over
  the records of the view, and the count of a value is the number of times the records
  list it, one unit per listed occurrence, whatever the number of values a record lists.
\<close>

theorem explode_conservation:
  "(sum_list (map snd (value_counts (countries_list view))) =
      sum_list (map (\<lambda>r. case country r of None \<Rightarrow> 0
                          | Some s \<Rightarrow> length (str_split_from '', '' [] s)) view) \<and>
    (\<forall>v n. (v, n) \<in> set (value_counts (countries_list view)) \<longrightarrow>
       n = sum_list (map (\<lambda>r. case country r of None \<Rightarrow> 0
                              | Some s \<Rightarrow> count_list (str_split_from '', '' [] s) v) view))) \<and>
   (sum_list (map snd (value_counts (genres_list view))) =
      sum_list (map (\<lambda>r. case listed_in r of None \<Rightarrow> 0
                          | Some s \<Rightarrow> length (str_split_from '', '' [] s)) view) \<and>
    (\<forall>v n. (v, n) \<in> set (value_counts (genres_list view)) \<longrightarrow>
       n = sum_list (map (\<lambda>r. case listed_in r of None \<Rightarrow> 0
                              | Some s \<Rightarrow> count_list (str_split_from '', '' [] s) v) view)))"
proof -
  have total: "sum_list (map snd (value_counts (explode (str_split (map f view) sep)))) =
      sum_list (map (\<lambda>r. case f r of None \<Rightarrow> 0
                          | Some s \<Rightarrow> length (str_split_from sep [] s)) view)"
    for f :: "typed_row \<Rightarrow> string option" and sep
    by (simp add: sum_value_counts notna_explode_str_split length_concat comp_def
          option.case_distrib [of length] cong: option.case_cong)
  have each: "n = sum_list (map (\<lambda>r. case f r of None \<Rightarrow> 0
                              | Some s \<Rightarrow> count_list (str_split_from sep [] s) v) view)"
    if "(v, n) \<in> set (value_counts (explode (str_split (map f view) sep)))"
    for f :: "typed_row \<Rightarrow> string option" and sep v n
  proof -
    have "n = count_list (notna_values (explode (str_split (map f view) sep))) v"
      using that by (auto simp: set_value_counts)
    then show ?thesis
      by (simp add: notna_explode_str_split count_list_concat comp_def
            option.case_distrib [of "\<lambda>xs. count_list xs v"] cong: option.case_cong)
  qed
  show ?thesis
    unfolding countries_list_def genres_list_def
    using total [of country "'', ''"] total [of listed_in "'', ''"]
      each [of _ _ country "'', ''"] each [of _ _ listed_in "'', ''"]
    by blast
qed

theorem explode_conservation_witness:
  "sum_list (map snd (value_counts (countries_list scenario))) = 6 \<and>
   value_counts (countries_list scenario) = [(''US'', 3), (''UK'', 2), (''IN'', 1)]"
proof -
  have "sum_list (map snd (value_counts (countries_list scenario))) =
      sum_list (map (\<lambda>r. case country r of None \<Rightarrow> 0
                          | Some s \<Rightarrow> length (str_split_from '', '' [] s)) scenario)"
    by (rule explode_conservation [of scenario, THEN conjunct1, THEN conjunct1])
  also have "\<dots> = 6"
    by code_simp
  finally have a: "sum_list (map snd (value_counts (countries_list scenario))) = 6" .
  have "value_counts (countries_list scenario) = [(''US'', 3), (''UK'', 2), (''IN'', 1)]"
    by code_simp
  with a show ?thesis by (rule conjI)
qed

section \<open>The store during a run\<close>

lemma map_of_filter_None: "map_of (filter (\<lambda>p. fst p \<noteq> name) xs) name = None"
  by (induction xs) auto

lemma duration_panel_eq:
  assumes "view_at < length st"
  shows "duration_panel st view_at ct name notice =
     (let F = \<lparr> rows = filter (\<lambda>r. type r = Some ct) (rows (st ! view_at)),
                 added = map (\<lambda>(n, col). (n, getitem_mask col
                                (eq_mask (map type (rows (st ! view_at))) ct)))
                           (added (st ! view_at)) \<rparr>;
          col = extract_number (map duration (rows F))
      in if rows F = [] then (st @ [F, F], Suc (length st), Info notice)
         else (st @ [F, F\<lparr> added := filter (\<lambda>p. fst p \<noteq> name) (added F) @ [(name, col)] \<rparr>],
               Suc (length st), Chart col (mean (map (map_option of_nat) col))))"
  using assms
  unfolding duration_panel_def frame_getitem_mask_def frame_copy_def new_frame_def
    frame_setitem_def frame_column_def Let_def
  by (simp add: nth_append eq_mask_map getitem_mask_map map_add_def map_of_filter_None list_update_append)



lemma cleaned_rows_notna:
  assumes "dropna df = df" and "r \<in> set df"
  shows "listed_in r \<noteq> None" and "release_year r \<noteq> None"
proof -
  have "\<not> list_ex (\<lambda>b. b) (isna r)"
    using assms unfolding dropna_def by (metis filter_id_conv)
  then show "listed_in r \<noteq> None" and "release_year r \<noteq> None"
    by (simp_all add: complete_row)
qed



lemma avg_year_Some:
  assumes "\<forall>r \<in> set view. release_year r \<noteq> None" and "view \<noteq> []"
  shows "avg_year view =
           Some (rat_of_int (sum_list (notna_values (map release_year view)))
                   / of_nat (length view))"
proof -
  have n: "notna_values (map (map_option rat_of_int) (map release_year view)) =
        map rat_of_int (notna_values (map release_year view))"
    unfolding notna_values_def by (induction view) (auto split: option.split)
  have l: "length (notna_values (map release_year view)) = length view"
    using assms(1) unfolding notna_values_def by (induction view) auto
  have "notna_values (map release_year view) \<noteq> []"
    using l assms(2) by (metis length_0_conv)
  then show ?thesis
    unfolding avg_year_def mean_def Let_def n
    by (simp add: l sum_list_of_int)
qed


lemma set_df_filtered: "set (df_filtered df sel lo hi) \<subseteq> set df"
  by (auto simp: df_filtered_filter)



section \<open>The empty view\<close>




section \<open>Numeric extraction\<close>

lemma str_extract_None: "(str_extract s = None) = (\<forall>c \<in> set s. \<not> isdigit c)"
proof (cases "dropWhile (\<lambda>c. \<not> isdigit c) s")
  case Nil
  have "\<forall>c \<in> set s. \<not> isdigit c"
    using Nil by (simp add: dropWhile_eq_Nil_conv)
  then show ?thesis
    unfolding str_extract_def Nil by simp
next
  case (Cons d rest)
  have "dropWhile (\<lambda>c. \<not> isdigit c) s \<noteq> []"
    unfolding Cons by simp
  then have "\<not> (\<forall>c \<in> set s. \<not> isdigit c)"
    by (simp add: dropWhile_eq_Nil_conv)
  then show ?thesis
    unfolding str_extract_def Cons by simp
qed

lemma str_extract_run:
  assumes pre: "\<forall>c \<in> set pre. \<not> isdigit c"
    and ds: "ds \<noteq> []" "\<forall>c \<in> set ds. isdigit c"
    and rest: "rest = [] \<or> \<not> isdigit (hd rest)"
  shows "str_extract (pre @ ds @ rest) = Some ds"
proof -
  obtain d ds' where d: "ds = d # ds'" using ds(1) by (cases ds) auto
  have dig: "isdigit d" using ds(2) d by simp
  have "dropWhile (\<lambda>c. \<not> isdigit c) (pre @ ds @ rest) = ds @ rest"
    using pre dig d by (simp add: dropWhile_append3)
  moreover have "takeWhile isdigit (ds @ rest) = ds"
  proof (cases rest)
    case Nil
    then show ?thesis using ds(2) by (simp add: takeWhile_eq_all_conv)
  next
    case (Cons x xs)
    then have "\<not> isdigit x" using rest by simp
    then show ?thesis using ds(2) Cons by (simp add: takeWhile_tail)
  qed
  ultimately show ?thesis
    unfolding str_extract_def using d by simp
qed

lemma histogram_values_extract_number:
  "histogram_values (extract_number col) =
     concat (map (\<lambda>c. case c of None \<Rightarrow> []
                          | Some s \<Rightarrow> (case str_extract s of None \<Rightarrow> []
                                        | Some ds \<Rightarrow> [astype_float ds])) col)"
  unfolding histogram_values_def extract_number_def notna_values_def
  by (induction col) (auto split: option.split)

lemma duration_panel_keeps_rows:
  assumes "view_at < length st"
  shows "case duration_panel st view_at ct name notice of
           (st', sub_df, p) \<Rightarrow>
             st' ! view_at = st ! view_at \<and>
             rows (st' ! sub_df) = filter (\<lambda>r. type r = Some ct) (rows (st ! view_at)) \<and>
             (rows (st' ! sub_df) = [] \<longrightarrow> p = Info notice) \<and>
             (rows (st' ! sub_df) \<noteq> [] \<longrightarrow>
                p = Chart (extract_number (map duration (rows (st' ! sub_df))))
                      (mean (map (map_option of_nat)
                         (extract_number (map duration (rows (st' ! sub_df)))))))"
  unfolding duration_panel_eq [OF assms] Let_def
  using assms by (simp add: nth_append)

text \<open>
  C3 (amended). The extraction yields the first maximal run of decimal digits found
  anywhere in the string, read as a decimal number, whatever stands before it; it yields
  null exactly when the string has no digit. "3 Seasons" gives 3, "90 min" gives 90, ""
  and "min" give null. The extracted column has one entry per row; a null entry is left
  out of the histogram only: the per-type frame keeps all rows of that type and the
  filtered frame is unchanged.
\<close>

theorem extract_number_first_digit_run:
  "((str_extract s = None) = (\<forall>c \<in> set s. \<not> isdigit c)) \<and>
   ((\<forall>c \<in> set pre. \<not> isdigit c) \<and> ds \<noteq> [] \<and> (\<forall>c \<in> set ds. isdigit c) \<and>
      (rest = [] \<or> \<not> isdigit (hd rest)) \<longrightarrow>
      extract_number [Some (pre @ ds @ rest)] = [Some (astype_float ds)]) \<and>
   astype_float [] = 0 \<and>
   astype_float (ds @ [c]) = 10 * astype_float ds + digit_value c \<and>
   extract_number [Some ''3 Seasons'', Some ''90 min'', Some '''', Some ''min'', None] =
     [Some 3, Some 90, None, None, None] \<and>
   length (extract_number col) = length col \<and>
   histogram_values (extract_number col) =
     concat (map (\<lambda>c. case c of None \<Rightarrow> []
                          | Some s \<Rightarrow> (case str_extract s of None \<Rightarrow> []
                                        | Some ds \<Rightarrow> [astype_float ds])) col) \<and>
   (view_at < length st \<longrightarrow>
      (case duration_panel st view_at ct name notice of
         (st', sub_df, p) \<Rightarrow>
           st' ! view_at = st ! view_at \<and>
           rows (st' ! sub_df) = filter (\<lambda>r. type r = Some ct) (rows (st ! view_at)) \<and>
           (rows (st' ! sub_df) = [] \<longrightarrow> p = Info notice) \<and>
           (rows (st' ! sub_df) \<noteq> [] \<longrightarrow>
              p = Chart (extract_number (map duration (rows (st' ! sub_df))))
                    (mean (map (map_option of_nat)
                       (extract_number (map duration (rows (st' ! sub_df)))))))))"
proof (intro conjI impI)
  show "(str_extract s = None) = (\<forall>c \<in> set s. \<not> isdigit c)"
    by (rule str_extract_None)
  show "extract_number [Some (pre @ ds @ rest)] = [Some (astype_float ds)]"
    if "(\<forall>c \<in> set pre. \<not> isdigit c) \<and> ds \<noteq> [] \<and> (\<forall>c \<in> set ds. isdigit c) \<and>
      (rest = [] \<or> \<not> isdigit (hd rest))"
    using that by (simp add: extract_number_def str_extract_run)
  show "astype_float [] = 0"
    by (simp add: astype_float_def)
  show "astype_float (ds @ [c]) = 10 * astype_float ds + digit_value c"
    by (simp add: astype_float_def)
  show "extract_number [Some ''3 Seasons'', Some ''90 min'', Some '''', Some ''min'', None] =
     [Some 3, Some 90, None, None, None]"
    by code_simp
  show "length (extract_number col) = length col"
    by (simp add: extract_number_def)
  show "histogram_values (extract_number col) =
     concat (map (\<lambda>c. case c of None \<Rightarrow> []
                          | Some s \<Rightarrow> (case str_extract s of None \<Rightarrow> []
                                        | Some ds \<Rightarrow> [astype_float ds])) col)"
    by (rule histogram_values_extract_number)
  show "case duration_panel st view_at ct name notice of
         (st', sub_df, p) \<Rightarrow>
           st' ! view_at = st ! view_at \<and>
           rows (st' ! sub_df) = filter (\<lambda>r. type r = Some ct) (rows (st ! view_at)) \<and>
           (rows (st' ! sub_df) = [] \<longrightarrow> p = Info notice) \<and>
           (rows (st' ! sub_df) \<noteq> [] \<longrightarrow>
              p = Chart (extract_number (map duration (rows (st' ! sub_df))))
                    (mean (map (map_option of_nat)
                       (extract_number (map duration (rows (st' ! sub_df)))))))"
    if "view_at < length st"
    by (rule duration_panel_keeps_rows [OF that])
qed

theorem extract_number_first_digit_run_witness:
  "extract_number [Some ''Vol. 12 extended''] = [Some 12] \<and>
   (case duration_panel scenario_store 0 ''Movie'' ''duration_min''
           ''No movies in selected filters'' of
      (st', sub_df, p) \<Rightarrow>
        st' ! 0 = scenario_store ! 0 \<and>
        rows (st' ! sub_df) = filter (\<lambda>r. type r = Some ''Movie'') (rows (scenario_store ! 0)) \<and>
        (rows (st' ! sub_df) = [] \<longrightarrow> p = Info ''No movies in selected filters'') \<and>
        (rows (st' ! sub_df) \<noteq> [] \<longrightarrow>
           p = Chart (extract_number (map duration (rows (st' ! sub_df))))
                 (mean (map (map_option of_nat)
                    (extract_number (map duration (rows (st' ! sub_df))))))))"
proof -
  note T = extract_number_first_digit_run [where pre = "''Vol. ''" and ds = "''12''" and rest = "'' extended''"
                 and view_at = 0 and st = scenario_store and ct = "''Movie''"
                 and name = "''duration_min''" and notice = "''No movies in selected filters''"]
  have h: "(\<forall>c \<in> set ''Vol. ''. \<not> isdigit c) \<and> ''12'' \<noteq> [] \<and> (\<forall>c \<in> set ''12''. isdigit c) \<and>
      ('' extended'' = [] \<or> \<not> isdigit (hd '' extended''))"
    by (simp add: isdigit_def)
  have "extract_number [Some (''Vol. '' @ ''12'' @ '' extended'')] = [Some (astype_float ''12'')]"
    by (rule T [THEN conjunct2, THEN conjunct1, THEN mp, OF h])
  then have a: "extract_number [Some ''Vol. 12 extended''] = [Some 12]"
    by (simp add: astype_float_def digit_value_def)
  have l: "0 < length scenario_store"
    by (simp add: scenario_store_def)
  have b: "case duration_panel scenario_store 0 ''Movie'' ''duration_min''
           ''No movies in selected filters'' of
      (st', sub_df, p) \<Rightarrow>
        st' ! 0 = scenario_store ! 0 \<and>
        rows (st' ! sub_df) = filter (\<lambda>r. type r = Some ''Movie'') (rows (scenario_store ! 0)) \<and>
        (rows (st' ! sub_df) = [] \<longrightarrow> p = Info ''No movies in selected filters'') \<and>
        (rows (st' ! sub_df) \<noteq> [] \<longrightarrow>
           p = Chart (extract_number (map duration (rows (st' ! sub_df))))
                 (mean (map (map_option of_nat)
                    (extract_number (map duration (rows (st' ! sub_df)))))))"
    by (rule T [THEN conjunct2, THEN conjunct2, THEN conjunct2, THEN conjunct2,
                THEN conjunct2, THEN conjunct2, THEN conjunct2, THEN mp, OF l])
  show ?thesis
    using a b by (rule conjI)
qed

text \<open>
  C3 as stated fails: a string with a non-digit prefix before its digits does not give
  null.
\<close>

theorem extract_number_prefix_counterexample:
  "extract_number [Some ''Season 3''] = [Some 3] \<and> \<not> isdigit (hd ''Season 3'')"
  by code_simp

section \<open>Average release year\<close>

lemma dropna_idem: "dropna (dropna df) = dropna df"
  unfolding dropna_def by simp

lemma notna_values_ge:
  assumes "\<forall>c \<in> set col. \<exists>y. c = Some y \<and> lo \<le> y"
  shows "\<forall>y \<in> set (notna_values col). lo \<le> y"
  using assms unfolding notna_values_def by (induction col) auto

text \<open>
  C8 (amended). For every non-empty filtered view of a cleaned frame, the reported
  average release year is the arithmetic mean of the release years of the view,
  truncated toward zero by \<^verbatim>\<open>int()\<close>; for a year range with a non-negative lower bound
  that is the integer quotient of the sum of the years by their number.
\<close>

theorem average_release_year_truncates:
  assumes "view = df_filtered (dropna df) selected_content_types min_year max_year"
    and "view \<noteq> []"
  shows "\<exists>m. avg_year view = Some m \<and>
           m = rat_of_int (sum_list (notna_values (map release_year view)))
                 / rat_of_nat (length view) \<and>
           length (notna_values (map release_year view)) = length view \<and>
           average_release_year view =
             Inr (AverageReleaseYear (if m < 0 then \<lceil>m\<rceil> else \<lfloor>m\<rfloor>)) \<and>
           (0 \<le> min_year \<longrightarrow>
              average_release_year view =
                Inr (AverageReleaseYear
                       (sum_list (notna_values (map release_year view)) div int (length view))))"
proof -
  let ?ys = "notna_values (map release_year view)"
  let ?m = "rat_of_int (sum_list ?ys) / rat_of_nat (length view)"
  have sub: "set view \<subseteq> set (dropna df)"
    unfolding assms(1) by (rule set_df_filtered)
  have notna: "\<forall>r \<in> set view. release_year r \<noteq> None"
    using cleaned_rows_notna(2) [OF dropna_idem] sub by blast
  have avg: "avg_year view = Some ?m"
    by (rule avg_year_Some [OF notna assms(2)])
  have len: "length ?ys = length view"
    using notna unfolding notna_values_def by (induction view) auto
  have res: "average_release_year view =
      Inr (AverageReleaseYear (if ?m < 0 then \<lceil>?m\<rceil> else \<lfloor>?m\<rfloor>))"
    using assms(2) by (simp add: average_release_year_def avg py_int_def)
  have nonneg: "average_release_year view =
      Inr (AverageReleaseYear (sum_list ?ys div int (length view)))" if "0 \<le> min_year"
  proof -
    have "\<forall>c \<in> set (map release_year view). \<exists>y. c = Some y \<and> min_year \<le> y"
      unfolding assms(1) by (auto simp: df_filtered_filter)
    then have "\<forall>y \<in> set ?ys. min_year \<le> y"
      by (rule notna_values_ge)
    then have "0 \<le> sum_list ?ys"
      using that by (intro sum_list_nonneg) force
    then have "0 \<le> ?m" by simp
    moreover have "\<lfloor>?m\<rfloor> = sum_list ?ys div int (length view)"
      using floor_divide_of_int_eq [of "sum_list ?ys" "int (length view)", where ?'a = rat]
      by simp
    ultimately show ?thesis using res by simp
  qed
  show ?thesis
    using avg len res nonneg by blast
qed

theorem average_release_year_truncates_witness:
  "(\<exists>m. avg_year (df_filtered (dropna scenario) [''Movie'', ''TV Show''] 2019 2020) = Some m \<and>
           m = rat_of_int (sum_list (notna_values (map release_year
                  (df_filtered (dropna scenario) [''Movie'', ''TV Show''] 2019 2020))))
                 / rat_of_nat (length (df_filtered (dropna scenario) [''Movie'', ''TV Show''] 2019 2020)) \<and>
           length (notna_values (map release_year
                  (df_filtered (dropna scenario) [''Movie'', ''TV Show''] 2019 2020))) =
             length (df_filtered (dropna scenario) [''Movie'', ''TV Show''] 2019 2020) \<and>
           average_release_year (df_filtered (dropna scenario) [''Movie'', ''TV Show''] 2019 2020) =
             Inr (AverageReleaseYear (if m < 0 then \<lceil>m\<rceil> else \<lfloor>m\<rfloor>)) \<and>
           (0 \<le> (2019 :: int) \<longrightarrow>
              average_release_year (df_filtered (dropna scenario) [''Movie'', ''TV Show''] 2019 2020) =
                Inr (AverageReleaseYear
                       (sum_list (notna_values (map release_year
                          (df_filtered (dropna scenario) [''Movie'', ''TV Show''] 2019 2020)))
                        div int (length (df_filtered (dropna scenario) [''Movie'', ''TV Show''] 2019 2020)))))) \<and>
   average_release_year (df_filtered (dropna scenario) [''Movie'', ''TV Show''] 2019 2020) =
     Inr (AverageReleaseYear 2019)"
proof -
  have ne: "df_filtered (dropna scenario) [''Movie'', ''TV Show''] 2019 2020 \<noteq> []"
    by code_simp
  have e: "average_release_year (df_filtered (dropna scenario) [''Movie'', ''TV Show''] 2019 2020) =
     Inr (AverageReleaseYear 2019)"
    by code_simp
  show ?thesis
    by (rule conjI [OF average_release_year_truncates [OF refl ne] e])
qed

text \<open>
  C8 as stated fails: for the years 2020, 2019, 2020 the mean is 6059/3, whose nearest
  integer is 2020, and the page reports 2019.
\<close>

theorem average_release_year_not_nearest_counterexample:
  "avg_year (df_filtered scenario [''Movie'', ''TV Show''] 2019 2020) = Some (6059 / 3) \<and>
   round (6059 / 3 :: rat) = (2020 :: int) \<and>
   average_release_year (df_filtered scenario [''Movie'', ''TV Show''] 2019 2020) =
     Inr (AverageReleaseYear 2019)"
  by code_simp

end
